theory Spec2Isabelle
  imports Complex_Main
begin

section \<open>Data model of \<open>urbanFormPy/simplify.py\<close>\<close>

text \<open>
  The module cleans a street network held in two pandas tables. A table is modelled as
  the list of its rows, in row order; a row is a record with one field per column the
  code reads or writes.

  \<^item> Coordinates are Python floats that the code only copies and compares; they are
    modelled as rationals.
  \<^item> A \<open>LineString\<close> is the list of its coordinates (\<open>list(geom.coords)\<close>).
  \<^item> The node table carries its index label (\<open>nidx\<close>) next to the column
    \<open>nodeID\<close>, since \<open>duplicate_nodes\<close> and \<open>clean_network\<close> re-index the table
    and \<open>.loc\<close> and \<open>.drop\<close> address rows by label. The columns \<open>x\<close>, \<open>y\<close> are
    the fields \<open>px\<close>, \<open>py\<close>.
  \<^item> The edge table is indexed by \<open>streetID\<close>, as \<open>reset_index_gdf\<close> leaves it: the
    code uses \<open>tmp.iloc[0].streetID\<close> as a row label throughout.
  \<^item> The column named by \<open>densities_column\<close> is the field \<open>density\<close>.
  \<^item> The key column \<open>code\<close> holds \<open>None\<close> or the string \<open>"a-b"\<close> of two node
    identifiers; the pair \<open>(a, b)\<close> stands for that string.
  \<^item> The column \<open>length\<close> is the field \<open>edge_length\<close>; the code writes it (line 295)
    before it reads it. The scratch columns \<open>coords\<close> and \<open>tmp\<close> are written and read
    within one pass of the loop and dropped on exit; they are local values here.
  \<^item> An exception is a value \<open>Inl err\<close>; \<open>and_then\<close> runs the next statement only
    when the previous one did not raise.
\<close>

type_synonym point = "rat \<times> rat"
type_synonym linestring = "point list"

datatype error = AttributeError | KeyError | IndexError | ValueError | columnError

record node =
  nidx :: int
  nodeID :: int
  point_geometry :: point
  px :: rat
  py :: rat

record edge =
  streetID :: int
  u :: int
  v :: int
  geometry :: linestring
  highway :: string
  pedestrian :: int
  density :: int
  edge_length :: rat
  code :: "(int \<times> int) option"


definition and_then :: "error + 'a \<Rightarrow> ('a \<Rightarrow> error + 'b) \<Rightarrow> error + 'b" where
  "and_then m f = (case m of Inl err \<Rightarrow> Inl err | Inr a \<Rightarrow> f a)"

text \<open>
  The keyword arguments of \<open>clean_network\<close> (line 242), and the names the module uses
  without defining them: \<open>double_nodes\<close> (line 279), \<open>detect_islands\<close> (line 359),
  \<open>uf.center_line\<close> (line 336), the \<open>length\<close> of a shapely geometry (lines 295, 333) and
  the component search done through \<open>graph_fromGDF\<close> and networkx (lines 360-364:
  \<open>None\<close> when the graph is connected, otherwise the nodes of the largest component).
  They are parameters of the model.
\<close>

record config =
  dead_ends :: bool
  remove_disconnected_islands :: bool
  same_uv_edges :: bool
  update_densities :: bool
  densities_column :: "string option"

record env =
  double_nodes :: "node list \<Rightarrow> edge list \<Rightarrow> error + node list \<times> edge list"
  detect_islands :: bool
  center_line :: "linestring \<Rightarrow> linestring \<Rightarrow> linestring"
  line_length :: "linestring \<Rightarrow> rat"
  largest_component :: "node list \<Rightarrow> edge list \<Rightarrow> int list option"

section \<open>Geometry reconciler: \<open>update_line_geometry_coords\<close> and \<open>correct_edges\<close>\<close>

text \<open>\<open>nodes_gdf.loc[k]\<close>: the row labelled \<open>k\<close>, or \<open>KeyError\<close>.\<close>

definition loc_node :: "node list \<Rightarrow> int \<Rightarrow> error + node" where
  "loc_node nodes k =
     (case find (\<lambda>n. nidx n = k) nodes of None \<Rightarrow> Inl KeyError | Some n \<Rightarrow> Inr n)"

text \<open>
  Lines 394-415. The coordinate sequence \<open>old_line_geometry.coords\<close> is taken as the
  Python list that \<open>list(geom.coords)\<close> gives at lines 206-219 and 304, so that the two
  item assignments are list updates. Each assignment evaluates its right-hand side first
  (\<open>KeyError\<close> for a missing node), then stores into the list (\<open>IndexError\<close> when it
  is empty); index \<open>-1\<close> is the last position.
\<close>

definition update_line_geometry_coords ::
  "int \<Rightarrow> int \<Rightarrow> node list \<Rightarrow> linestring \<Rightarrow> error + linestring" where
  "update_line_geometry_coords uu vv nodes old_line_geometry =
     (case loc_node nodes uu of
        Inl e \<Rightarrow> Inl e
      | Inr nu \<Rightarrow>
          if old_line_geometry = [] then Inl IndexError
          else
            let line_coords = old_line_geometry[0 := (px nu, py nu)] in
            (case loc_node nodes vv of
               Inl e \<Rightarrow> Inl e
             | Inr nv \<Rightarrow> Inr (line_coords[length line_coords - 1 := (px nv, py nv)])))"

text \<open>Lines 376-392: the row-wise \<open>apply\<close>; the first failing row raises.\<close>

fun correct_edges :: "node list \<Rightarrow> edge list \<Rightarrow> error + edge list" where
  "correct_edges nodes [] = Inr []"
| "correct_edges nodes (e # es) =
     (case update_line_geometry_coords (u e) (v e) nodes (geometry e) of
        Inl err \<Rightarrow> Inl err
      | Inr g \<Rightarrow>
          (case correct_edges nodes es of
             Inl err \<Rightarrow> Inl err
           | Inr es' \<Rightarrow> Inr (e\<lparr>geometry := g\<rparr> # es')))"

section \<open>Table primitives\<close>

text \<open>\<open>drop_duplicates(keep = 'first')\<close> on a key: a row stays when no earlier row has its key.\<close>

fun drop_duplicates_from :: "('a \<Rightarrow> 'k) \<Rightarrow> 'k list \<Rightarrow> 'a list \<Rightarrow> 'a list" where
  "drop_duplicates_from key seen [] = []"
| "drop_duplicates_from key seen (r # rs) =
     (if key r \<in> set seen then drop_duplicates_from key seen rs
      else r # drop_duplicates_from key (key r # seen) rs)"

definition drop_duplicates :: "('a \<Rightarrow> 'k) \<Rightarrow> 'a list \<Rightarrow> 'a list" where
  "drop_duplicates key rs = drop_duplicates_from key [] rs"

text \<open>\<open>nodes_gdf.drop(labels, axis = 0)\<close>: \<open>KeyError\<close> when a label is not in the index.\<close>

definition drop_nodes :: "int list \<Rightarrow> node list \<Rightarrow> error + node list" where
  "drop_nodes labels nodes =
     (if list_all (\<lambda>l. l \<in> set (map nidx nodes)) labels
      then Inr (filter (\<lambda>n. nidx n \<notin> set labels) nodes)
      else Inl KeyError)"

text \<open>\<open>edges_gdf.loc[label]\<close>, \<open>edges_gdf.at[label, column] = value\<close> and
  \<open>edges_gdf.drop(labels, axis = 0)\<close> on the edge table.\<close>

definition loc_edge :: "edge list \<Rightarrow> int \<Rightarrow> error + edge" where
  "loc_edge edges k =
     (case find (\<lambda>e. streetID e = k) edges of None \<Rightarrow> Inl KeyError | Some e \<Rightarrow> Inr e)"

definition set_at :: "int \<Rightarrow> (edge \<Rightarrow> edge) \<Rightarrow> edge list \<Rightarrow> edge list" where
  "set_at k f edges = map (\<lambda>e. if streetID e = k then f e else e) edges"

definition drop_edges :: "int list \<Rightarrow> edge list \<Rightarrow> error + edge list" where
  "drop_edges labels edges =
     (if list_all (\<lambda>l. l \<in> set (map streetID edges)) labels
      then Inr (filter (\<lambda>e. streetID e \<notin> set labels) edges)
      else Inl KeyError)"

section \<open>Identity resolver: \<open>duplicate_nodes\<close>\<close>

text \<open>
  Lines 51-86. Line 64 re-indexes the table it was given, in place, before line 65 takes
  the copies: the first component of the result is the caller's node table after the
  call, the second what the call returns or raises.

  When some geometry occurs twice, the loop of lines 77-84 runs and its second statement
  (line 79) reads the attribute \<open>geomety\<close> of the node table, which no table has: the
  first iteration raises \<open>AttributeError\<close>.
\<close>

definition duplicate_nodes ::
  "node list \<Rightarrow> edge list \<Rightarrow> node list \<times> (error + node list \<times> edge list)" where
  "duplicate_nodes nodes_gdf edges_gdf =
     (let nodes = (if map nidx nodes_gdf \<noteq> map nodeID nodes_gdf
                   then map (\<lambda>n. n\<lparr>nidx := nodeID n\<rparr>) nodes_gdf else nodes_gdf);
          new_nodes = drop_duplicates point_geometry nodes;
          to_edit = filter (\<lambda>l. l \<notin> set (map nidx new_nodes)) (map nidx nodes)
      in (nodes, if to_edit = [] then Inr (nodes, edges_gdf) else Inl AttributeError))"

section \<open>Degree classifier, \<open>fix_dead_ends\<close>, \<open>is_nodes_simplified\<close>, \<open>is_edges_simplified\<close>\<close>

text \<open>
  Lines 104-106, 132-134, 182-183: \<open>dd\<close> maps a node identifier to the number of times it
  occurs in column \<open>u\<close> plus the number of times it occurs in column \<open>v\<close>; its keys are
  \<open>set(dd_u) | set(dd_v)\<close>. Python leaves the iteration order of that set open; the
  model lists the keys in ascending order.
\<close>

definition dd :: "edge list \<Rightarrow> int \<Rightarrow> nat" where
  "dd edges k = count_list (map u edges) k + count_list (map v edges) k"

definition dd_keys :: "edge list \<Rightarrow> int list" where
  "dd_keys edges = sort (remdups (map u edges @ map v edges))"

text \<open>Lines 89-116.\<close>

definition fix_dead_ends :: "node list \<Rightarrow> edge list \<Rightarrow> error + node list \<times> edge list" where
  "fix_dead_ends nodes edges =
     (let to_delete = filter (\<lambda>k. dd edges k = 1) (dd_keys edges) in
      if to_delete = [] then Inr (nodes, edges)
      else
        and_then (drop_nodes to_delete nodes) (\<lambda>nodes'.
          Inr (nodes',
               filter (\<lambda>e. v e \<notin> set to_delete) (filter (\<lambda>e. u e \<notin> set to_delete) edges))))"

text \<open>Lines 118-139.\<close>

definition is_nodes_simplified :: "edge list \<Rightarrow> bool" where
  "is_nodes_simplified edges =
     (let to_edit = filter (\<lambda>k. dd edges k = 2) (dd_keys edges) in to_edit = [])"

text \<open>
  The canonical endpoint-pair key (lines 156-157 and 300-301): \<open>"u-v"\<close> when \<open>v >= u\<close>,
  else \<open>"v-u"\<close>.
\<close>

definition edge_code :: "edge \<Rightarrow> int \<times> int" where
  "edge_code e = (if v e \<ge> u e then (u e, v e) else (v e, u e))"

definition assign_codes :: "edge list \<Rightarrow> edge list" where
  "assign_codes edges = map (\<lambda>e. e\<lparr>code := Some (edge_code e)\<rparr>) edges"

text \<open>
  Lines 141-161. The function takes no copy: lines 155-157 write the column \<open>code\<close> of
  the table it was given. The first component of the result is that table after the
  call, the second the returned boolean.
\<close>

definition is_edges_simplified :: "edge list \<Rightarrow> edge list \<times> bool" where
  "is_edges_simplified edges_gdf =
     (let edges = assign_codes (map (\<lambda>e. e\<lparr>code := None\<rparr>) edges_gdf);
          codes = map code edges;
          dd = filter (\<lambda>k. count_list codes k > 1) (remdups codes)
      in (edges, dd = []))"

section \<open>Pseudo-node contractor: \<open>simplify_graph\<close>\<close>

text \<open>
  Lines 203-219: the four cases that re-link the first edge and fix the order of the two
  coordinate lists. \<open>first\<close> and \<open>second\<close> are the rows \<open>tmp.iloc[0]\<close>, \<open>tmp.iloc[1]\<close> of
  the copy taken at line 191; the values written come from the live table.
\<close>

definition relink :: "edge \<Rightarrow> edge \<Rightarrow> edge list \<Rightarrow> error + edge list \<times> linestring \<times> linestring" where
  "relink first second edges =
     (let index_first = streetID first; index_second = streetID second in
      if u first = u second then
        and_then (loc_edge edges index_first) (\<lambda>r1.
          let edges1 = set_at index_first (\<lambda>e. e\<lparr>u := v r1\<rparr>) edges in
          and_then (loc_edge edges1 index_second) (\<lambda>r2.
            Inr (set_at index_first (\<lambda>e. e\<lparr>v := v r2\<rparr>) edges1,
                 rev (geometry first), geometry second)))
      else if u first = v second then
        and_then (loc_edge edges index_second) (\<lambda>r2.
          Inr (set_at index_first (\<lambda>e. e\<lparr>u := u r2\<rparr>) edges, geometry second, geometry first))
      else if v first = u second then
        and_then (loc_edge edges index_second) (\<lambda>r2.
          Inr (set_at index_first (\<lambda>e. e\<lparr>v := v r2\<rparr>) edges, geometry first, geometry second))
      else
        and_then (loc_edge edges index_second) (\<lambda>r2.
          Inr (set_at index_first (\<lambda>e. e\<lparr>v := u r2\<rparr>) edges, geometry first, geometry second)))"

text \<open>
  What the four cases leave behind, read off \<open>relink\<close> for a table with unique labels
  (lemma \<open>relink_put\<close> below): the re-linked first row, and the coordinate list
  \<open>line_coordsA + line_coordsB\<close> of line 231.
\<close>

definition linked :: "edge \<Rightarrow> edge \<Rightarrow> edge" where
  "linked first second =
     (if u first = u second then first\<lparr>u := v first, v := v second\<rparr>
      else if u first = v second then first\<lparr>u := u second\<rparr>
      else if v first = u second then first\<lparr>v := v second\<rparr>
      else first\<lparr>v := u second\<rparr>)"

definition joined :: "edge \<Rightarrow> edge \<Rightarrow> linestring" where
  "joined first second =
     (if u first = u second then rev (geometry first) @ geometry second
      else if u first = v second then geometry second @ geometry first
      else geometry first @ geometry second)"

text \<open>
  Lines 221-222. With \<open>densities_column = None\<close> the row lookup \<open>row[None]\<close> raises
  \<open>KeyError\<close>.
\<close>

definition max_density ::
  "bool \<Rightarrow> string option \<Rightarrow> int \<Rightarrow> int \<Rightarrow> edge list \<Rightarrow> error + edge list" where
  "max_density upd column index_first index_second edges =
     (if upd then
        and_then (loc_edge edges index_first) (\<lambda>r1.
          and_then (loc_edge edges index_second) (\<lambda>r2.
            case column of
              None \<Rightarrow> Inl KeyError
            | Some _ \<Rightarrow>
                Inr (set_at index_first (\<lambda>e. e\<lparr>density := max (density r1) (density r2)\<rparr>) edges)))
      else Inr edges)"

text \<open>Lines 191-237: the body of the loop over the degree-2 nodes, for one node \<open>nid\<close>
  (the loop variable \<open>nodeID\<close>).\<close>

definition contract ::
  "bool \<Rightarrow> string option \<Rightarrow> int \<Rightarrow> node list \<times> edge list \<Rightarrow> error + node list \<times> edge list" where
  "contract upd column nid s =
     (case s of (nodes, edges) \<Rightarrow>
        (case filter (\<lambda>e. u e = nid \<or> v e = nid) edges of
           [] \<Rightarrow> and_then (drop_nodes [nid] nodes) (\<lambda>nodes'. Inr (nodes', edges))
         | [_] \<Rightarrow> Inr (nodes, edges)
         | first # second # _ \<Rightarrow>
             let index_first = streetID first; index_second = streetID second in
             and_then (relink first second edges) (\<lambda>(edges1, line_coordsA, line_coordsB).
             and_then (max_density upd column index_first index_second edges1) (\<lambda>edges2.
             and_then (loc_edge edges2 index_first) (\<lambda>row.
               if u row = v row then
                 and_then (drop_edges [index_first, index_second] edges2) (\<lambda>edges3.
                 and_then (drop_nodes [nid] nodes) (\<lambda>nodes'. Inr (nodes', edges3)))
               else
                 let new_line = line_coordsA @ line_coordsB;
                     edges3 = set_at index_first (\<lambda>e. e\<lparr>geometry := new_line\<rparr>) edges2 in
                 and_then (loc_edge edges3 index_second) (\<lambda>row2.
                   let edges4 = (if pedestrian row2 = 1
                                 then set_at index_first (\<lambda>e. e\<lparr>pedestrian := 1\<rparr>) edges3
                                 else edges3) in
                   and_then (drop_edges [index_second] edges4) (\<lambda>edges5.
                   and_then (drop_nodes [nid] nodes) (\<lambda>nodes'. Inr (nodes', edges5)))))))))"

fun contract_all ::
  "bool \<Rightarrow> string option \<Rightarrow> int list \<Rightarrow> node list \<times> edge list \<Rightarrow> error + node list \<times> edge list" where
  "contract_all upd column [] s = Inr s"
| "contract_all upd column (nid # to_edit_list) s =
     and_then (contract upd column nid s) (contract_all upd column to_edit_list)"

text \<open>Lines 163-239.\<close>

definition simplify_graph ::
  "node list \<Rightarrow> edge list \<Rightarrow> bool \<Rightarrow> string option \<Rightarrow> error + node list \<times> edge list" where
  "simplify_graph nodes edges upd column =
     (let to_edit_list = filter (\<lambda>k. dd edges k = 2) (dd_keys edges) in
      if to_edit_list = [] then Inr (nodes, edges)
      else contract_all upd column to_edit_list (nodes, edges))"

section \<open>Duplicate and parallel edge resolver (lines 295-343 of \<open>clean_network\<close>)\<close>

text \<open>
  Lines 304-306: the coordinate list of an edge, reversed when its \<open>"u-v"\<close> string differs
  from its key.
\<close>

definition coords :: "edge \<Rightarrow> linestring" where
  "coords e = (if Some (u e, v e) \<noteq> code e then rev (geometry e) else geometry e)"

text \<open>
  Lines 328-343: the body of the loop over the rows of one group, for one \<open>connector\<close>.
  \<open>line_geometry\<close> and \<open>ix_line\<close> are the geometry and the label of the group's first row
  as read at line 325. The threshold \<open>1.30\<close> is the rational \<open>13/10\<close>.
\<close>

definition merge_connector ::
  "env \<Rightarrow> config \<Rightarrow> linestring \<Rightarrow> int \<Rightarrow> edge \<Rightarrow> edge list \<Rightarrow> error + edge list" where
  "merge_connector E cfg line_geometry ix_line connector edges =
     (if streetID connector = ix_line then Inr edges
      else
        let line_geometry_connector = geometry connector;
            ix_line_connector = streetID connector;
            edges1 =
              (if line_length E line_geometry_connector > line_length E line_geometry * (13 / 10)
               then edges
               else set_at ix_line
                      (\<lambda>e. e\<lparr>geometry := center_line E line_geometry line_geometry_connector\<rparr>)
                      edges) in
        and_then (loc_edge edges1 ix_line_connector) (\<lambda>c.
          let edges2 = (if pedestrian c = 1
                        then set_at ix_line (\<lambda>e. e\<lparr>pedestrian := 1\<rparr>) edges1
                        else edges1) in
          and_then
            (if update_densities cfg then
               (case densities_column cfg of
                  None \<Rightarrow> Inl columnError
                | Some _ \<Rightarrow>
                    and_then (loc_edge edges2 ix_line) (\<lambda>r.
                    and_then (loc_edge edges2 ix_line_connector) (\<lambda>c'.
                      Inr (set_at ix_line (\<lambda>e. e\<lparr>density := density r + density c'\<rparr>) edges2))))
             else Inr edges2)
            (\<lambda>edges3. drop_edges [ix_line_connector] edges3)))"

fun merge_connectors ::
  "env \<Rightarrow> config \<Rightarrow> linestring \<Rightarrow> int \<Rightarrow> edge list \<Rightarrow> edge list \<Rightarrow> error + edge list" where
  "merge_connectors E cfg line_geometry ix_line [] edges = Inr edges"
| "merge_connectors E cfg line_geometry ix_line (connector # tmp) edges =
     and_then (merge_connector E cfg line_geometry ix_line connector edges)
       (merge_connectors E cfg line_geometry ix_line tmp)"

text \<open>
  Lines 322-343: one group. \<open>sort_values\<close> is modelled by the stable \<open>sort_key\<close>; pandas
  leaves the order of rows of equal length open. \<open>tmp.iloc[0]\<close> on an empty table would
  raise \<open>IndexError\<close>.
\<close>

definition merge_group :: "env \<Rightarrow> config \<Rightarrow> (int \<times> int) option \<Rightarrow> edge list \<Rightarrow> error + edge list" where
  "merge_group E cfg key edges =
     (let tmp = sort_key edge_length (filter (\<lambda>e. code e = key) edges) in
      case tmp of
        [] \<Rightarrow> Inl IndexError
      | r # _ \<Rightarrow> merge_connectors E cfg (geometry r) (streetID r) tmp edges)"

fun merge_groups ::
  "env \<Rightarrow> config \<Rightarrow> (int \<times> int) option list \<Rightarrow> edge list \<Rightarrow> error + edge list" where
  "merge_groups E cfg [] edges = Inr edges"
| "merge_groups E cfg (key # keys) edges =
     and_then (merge_group E cfg key edges) (merge_groups E cfg keys)"

text \<open>
  Lines 317-343. The groups are disjoint and each is edited through its own rows only;
  the order in which \<open>value_counts\<close> lists the keys is modelled by first occurrence.
\<close>

definition same_uv :: "env \<Rightarrow> config \<Rightarrow> edge list \<Rightarrow> error + edge list" where
  "same_uv E cfg edges =
     (let codes = map code edges;
          dd = filter (\<lambda>k. count_list codes k > 1) (rev (remdups (rev codes)))
      in merge_groups E cfg dd edges)"

section \<open>\<open>clean_network\<close>\<close>

text \<open>
  Lines 295-314: lengths, keys, and the two removals of duplicate geometries (by the
  geometry itself, then by the coordinate list read from the lower node identifier).
\<close>

definition drop_duplicate_geometries :: "env \<Rightarrow> edge list \<Rightarrow> edge list" where
  "drop_duplicate_geometries E edges =
     (let edges1 = map (\<lambda>e. e\<lparr>edge_length := line_length E (geometry e)\<rparr>) edges;
          edges2 = assign_codes edges1;
          edges3 = drop_duplicates geometry edges2
      in drop_duplicates coords edges3)"

text \<open>Lines 294-351: one pass of the loop.\<close>

definition clean_pass :: "env \<Rightarrow> config \<Rightarrow> node list \<times> edge list \<Rightarrow> error + node list \<times> edge list" where
  "clean_pass E cfg s =
     (case s of (nodes, edges) \<Rightarrow>
        let edges4 = drop_duplicate_geometries E edges in
        and_then (if same_uv_edges cfg then same_uv E cfg edges4 else Inr edges4) (\<lambda>edges5.
          let to_keep = map u edges5 @ map v edges5;
              nodes1 = filter (\<lambda>n. nodeID n \<in> set to_keep) nodes in
          and_then (if dead_ends cfg then fix_dead_ends nodes1 edges5 else Inr (nodes1, edges5))
            (\<lambda>(nodes2, edges6).
               simplify_graph nodes2 edges6 (update_densities cfg) (densities_column cfg))))"

text \<open>
  Lines 292-351: the loop. Both tests of the condition are evaluated (\<open>|\<close> does not
  short-cut), \<open>is_edges_simplified\<close> first, and the table goes on with the \<open>code\<close> column
  that test wrote. A loop that never leaves is the value \<open>None\<close>.
\<close>

partial_function (option) clean_loop ::
  "env \<Rightarrow> config \<Rightarrow> node list \<times> edge list \<Rightarrow> (error + node list \<times> edge list) option" where
  "clean_loop E cfg s =
     (case s of (nodes, edges) \<Rightarrow>
        (case is_edges_simplified edges of (edges1, edges_simplified) \<Rightarrow>
           if \<not> (edges_simplified \<and> is_nodes_simplified edges1) then
             (case clean_pass E cfg (nodes, edges1) of
                Inl err \<Rightarrow> Some (Inl err)
              | Inr s' \<Rightarrow> clean_loop E cfg s')
           else Some (Inr (nodes, edges1))))"

declare clean_loop.simps [code]

text \<open>
  Lines 276 and 353: \<open>list(zip(*[...]))\<close> of an empty list is empty, and unpacking it
  into two names raises \<open>ValueError\<close>.
\<close>

definition set_xy :: "node list \<Rightarrow> error + node list" where
  "set_xy nodes =
     (if nodes = [] then Inl ValueError
      else Inr (map (\<lambda>n. n\<lparr>px := fst (point_geometry n), py := snd (point_geometry n)\<rparr>) nodes))"

text \<open>Lines 283-288, run when the edge table has a column \<open>highway\<close>.\<close>

definition to_remove :: "string list" where
  "to_remove = [''primary_link'', ''elevator'']"

definition pedestrian_highways :: "string list" where
  "pedestrian_highways = [''footway'', ''pedestrian'', ''living_street'', ''path'']"

definition classify_highway :: "edge list \<Rightarrow> edge list" where
  "classify_highway edges =
     (let edges1 = map (\<lambda>e. e\<lparr>pedestrian := 0\<rparr>) edges;
          edges2 = filter (\<lambda>e. highway e \<notin> set to_remove) edges1
      in map (\<lambda>e. if highway e \<in> set pedestrian_highways then e\<lparr>pedestrian := 1\<rparr> else e) edges2)"

text \<open>Lines 359-368: the disconnected-component filter.\<close>

definition drop_islands :: "env \<Rightarrow> node list \<times> edge list \<Rightarrow> error + node list \<times> edge list" where
  "drop_islands E s =
     (case s of (nodes, edges) \<Rightarrow>
        if detect_islands E then
          (case largest_component E nodes edges of
             None \<Rightarrow> Inr (nodes, edges)
           | Some G \<Rightarrow>
               let to_drop = filter (\<lambda>item. item \<notin> set G) (map nodeID nodes) in
               and_then (drop_nodes to_drop nodes) (\<lambda>nodes'.
                 Inr (nodes',
                      filter (\<lambda>e. u e \<in> set (map nodeID nodes') \<and> v e \<in> set (map nodeID nodes'))
                        edges)))
        else Inr (nodes, edges))"

text \<open>Lines 269-288: what \<open>clean_network\<close> does before the loop. \<open>highway_column\<close> says
  whether the edge table has a column \<open>highway\<close>.\<close>

definition clean_entry ::
  "env \<Rightarrow> bool \<Rightarrow> node list \<Rightarrow> edge list \<Rightarrow> error + node list \<times> edge list" where
  "clean_entry E highway_column nodes_gdf edges_gdf =
     (let nodes = map (\<lambda>n. n\<lparr>nidx := nodeID n\<rparr>) nodes_gdf in
      and_then (set_xy nodes) (\<lambda>nodes1.
        let edges = filter (\<lambda>e. u e \<noteq> v e) edges_gdf in
        and_then (double_nodes E nodes1 edges) (\<lambda>(nodes2, edges1).
          let edges2 = sort_key streetID edges1;
              edges3 = map (\<lambda>e. e\<lparr>code := None\<rparr>) edges2
          in Inr (nodes2, if highway_column then classify_highway edges3 else edges3))))"

text \<open>Lines 353-374: what it does after the loop.\<close>

definition clean_exit :: "env \<Rightarrow> node list \<times> edge list \<Rightarrow> error + node list \<times> edge list" where
  "clean_exit E s =
     (case s of (nodes, edges) \<Rightarrow>
        and_then (set_xy nodes) (\<lambda>nodes1.
          let edges1 = map (\<lambda>e. e\<lparr>code := None\<rparr>) edges in
          and_then (correct_edges nodes1 edges1) (\<lambda>edges2. drop_islands E (nodes1, edges2))))"

text \<open>Lines 242-374.\<close>

definition clean_network ::
  "env \<Rightarrow> config \<Rightarrow> bool \<Rightarrow> node list \<Rightarrow> edge list \<Rightarrow> (error + node list \<times> edge list) option" where
  "clean_network E cfg highway_column nodes_gdf edges_gdf =
     (case clean_entry E highway_column nodes_gdf edges_gdf of
        Inl err \<Rightarrow> Some (Inl err)
      | Inr s \<Rightarrow>
          (case clean_loop E cfg s of
             None \<Rightarrow> None
           | Some (Inl err) \<Rightarrow> Some (Inl err)
           | Some (Inr s') \<Rightarrow> Some (clean_exit E s')))"

section \<open>Row provenance\<close>

text \<open>
  Two relations used to follow rows through the passes. A row \<open>e'\<close> descends from a row
  \<open>e\<close> when it carries the same label and the same \<open>highway\<close> value and is a loop
  (\<open>u = v\<close>) only if \<open>e\<close> was one. A table refines another when its labels are unique
  and each of its rows descends from a row of the other.
\<close>

definition descends :: "edge \<Rightarrow> edge \<Rightarrow> bool" where
  "descends e e' \<longleftrightarrow>
     streetID e' = streetID e \<and> highway e' = highway e \<and> (u e' = v e' \<longrightarrow> u e = v e)"


section \<open>Example tables\<close>

text \<open>
  The collaborators of the examples: the resolver of this module for \<open>double_nodes\<close>, no
  island filter, the point-wise mean of two lines with equally many coordinates as
  centre line, and the length of a line whose segments are parallel to the axes.
\<close>

fun example_length :: "linestring \<Rightarrow> rat" where
  "example_length (p # q # ps) =
     \<bar>fst q - fst p\<bar> + \<bar>snd q - snd p\<bar> + example_length (q # ps)"
| "example_length _ = 0"

definition example_center_line :: "linestring \<Rightarrow> linestring \<Rightarrow> linestring" where
  "example_center_line a b =
     (if length a = length b
      then map (\<lambda>(p, q). ((fst p + fst q) / 2, (snd p + snd q) / 2)) (zip a b) else a)"

definition example_env :: env where
  "example_env =
     \<lparr>double_nodes = (\<lambda>nodes edges. snd (duplicate_nodes nodes edges)),
      detect_islands = False,
      center_line = example_center_line,
      line_length = example_length,
      largest_component = (\<lambda>nodes edges. None)\<rparr>"

definition example_config :: config where
  "example_config =
     \<lparr>dead_ends = False, remove_disconnected_islands = True, same_uv_edges = True,
      update_densities = False, densities_column = None\<rparr>"

definition mk_node :: "int \<Rightarrow> rat \<Rightarrow> rat \<Rightarrow> node" where
  "mk_node i a b = \<lparr>nidx = i, nodeID = i, point_geometry = (a, b), px = a, py = b\<rparr>"

definition mk_edge :: "int \<Rightarrow> int \<Rightarrow> int \<Rightarrow> linestring \<Rightarrow> edge" where
  "mk_edge i a b g =
     \<lparr>streetID = i, u = a, v = b, geometry = g, highway = ''residential'',
      pedestrian = 0, density = 0, edge_length = 0, code = None\<rparr>"






text \<open>
  Two streets between the nodes 0 and 1, each node with one more street: no node has
  degree 2, and the two parallel streets differ in geometry. \<open>ladder_pass\<close> is the edge
  table after one pass of the loop.
\<close>

definition ladder_nodes :: "node list" where
  "ladder_nodes = [mk_node 0 0 0, mk_node 1 1 0, mk_node 2 0 5, mk_node 3 1 5]"

definition ladder_edges :: "edge list" where
  "ladder_edges =
     [mk_edge 0 0 1 [(0, 0), (1, 0)],
      mk_edge 1 0 1 [(0, 0), (0, 1), (1, 1), (1, 0)],
      mk_edge 2 0 2 [(0, 0), (0, 5)],
      mk_edge 3 1 3 [(1, 0), (1, 5)]]"

definition ladder_pass :: "edge list" where
  "ladder_pass =
     [(mk_edge 0 0 1 [(0, 0), (1, 0)])\<lparr>edge_length := 1, code := Some (0, 1)\<rparr>,
      (mk_edge 1 0 1 [(0, 0), (0, 1), (1, 1), (1, 0)])\<lparr>edge_length := 3, code := Some (0, 1)\<rparr>,
      (mk_edge 2 0 2 [(0, 0), (0, 5)])\<lparr>edge_length := 5, code := Some (0, 2)\<rparr>,
      (mk_edge 3 1 3 [(1, 0), (1, 5)])\<lparr>edge_length := 5, code := Some (1, 3)\<rparr>]"


text \<open>
  Three streets between the nodes 0 and 1, as a pass of the loop has them (lengths and
  keys written): \<open>lane_near\<close> is within 30% of the length of \<open>lane\<close>, \<open>lane_far\<close> is
  more than 30% longer and runs the other way. \<open>counting\<close> switches density tracking on.
\<close>

definition lane :: edge where
  "lane = (mk_edge 0 0 1 [(0, 0), (0, 1), (10, 1), (10, 0)])
            \<lparr>edge_length := 12, code := Some (0, 1), density := 3\<rparr>"

definition lane_near :: edge where
  "lane_near = (mk_edge 1 0 1 [(0, 0), (0, 2), (10, 2), (10, 0)])
            \<lparr>edge_length := 14, code := Some (0, 1), pedestrian := 1, density := 7\<rparr>"


definition counting :: config where
  "counting = example_config\<lparr>update_densities := True, densities_column := Some ''count''\<rparr>"

section \<open>The geometry reconciler\<close>





section \<open>Lemmas on the table primitives\<close>

lemma and_then_Inr [simp]: "and_then (Inr a) f = f a"
  by (simp add: and_then_def)

lemma and_then_Inl [simp]: "and_then (Inl err) f = Inl err"
  by (simp add: and_then_def)


lemma loc_edge_Inr: "loc_edge edges k = Inr e \<Longrightarrow> e \<in> set edges \<and> streetID e = k"
  by (auto simp: loc_edge_def find_Some_iff split: option.splits)

lemma loc_edge_distinct:
  "distinct (map streetID edges) \<Longrightarrow> e \<in> set edges \<Longrightarrow> loc_edge edges (streetID e) = Inr e"
proof (induction edges)
  case Nil
  then show ?case by simp
next
  case (Cons a es)
  show ?case
  proof (cases "streetID a = streetID e")
    case True
    with Cons.prems have "a = e" by (auto simp: image_iff)
    then show ?thesis by (simp add: loc_edge_def)
  next
    case False
    with Cons have "loc_edge es (streetID e) = Inr e" by auto
    with False show ?thesis by (simp add: loc_edge_def)
  qed
qed

lemma loc_edge_absent: "k \<notin> streetID ` set edges \<Longrightarrow> loc_edge edges k = Inl KeyError"
  by (auto simp: loc_edge_def find_None_iff split: option.splits)


lemma loc_edge_set_at:
  assumes "\<And>e. streetID (f e) = streetID e"
  shows "loc_edge (set_at l f edges) k =
           (case loc_edge edges k of Inl err \<Rightarrow> Inl err | Inr e \<Rightarrow> Inr (if k = l then f e else e))"
  using assms by (induction edges) (auto simp: loc_edge_def set_at_def)

lemma set_at_set_at:
  assumes "\<And>e. streetID (g e) = streetID e"
  shows "set_at l f (set_at l g edges) = set_at l (\<lambda>e. f (g e)) edges"
  using assms by (simp add: set_at_def)

lemma set_at_only:
  assumes "distinct (map streetID edges)" "r \<in> set edges" "streetID r = l"
  shows "set_at l f edges = map (\<lambda>e. if streetID e = l then f r else e) edges"
proof -
  have "e = r" if "e \<in> set edges" "streetID e = l" for e
    using that assms by (metis distinct_map inj_onD)
  then show ?thesis by (auto simp: set_at_def)
qed

lemma drop_edges_present:
  "set labels \<subseteq> streetID ` set edges \<Longrightarrow>
     drop_edges labels edges = Inr (filter (\<lambda>e. streetID e \<notin> set labels) edges)"
  by (auto simp: drop_edges_def list_all_iff)


section \<open>What one contraction does to a table with unique labels\<close>

lemma relink_distinct:
  assumes d: "distinct (map streetID edges)"
      and f: "first \<in> set edges" and s: "second \<in> set edges"
      and ne: "streetID first \<noteq> streetID second"
  shows "relink first second edges =
     Inr (if u first = u second then
            (set_at (streetID first) (\<lambda>e. e\<lparr>u := v first, v := v second\<rparr>) edges,
             rev (geometry first), geometry second)
          else if u first = v second then
            (set_at (streetID first) (\<lambda>e. e\<lparr>u := u second\<rparr>) edges,
             geometry second, geometry first)
          else if v first = u second then
            (set_at (streetID first) (\<lambda>e. e\<lparr>v := v second\<rparr>) edges,
             geometry first, geometry second)
          else
            (set_at (streetID first) (\<lambda>e. e\<lparr>v := u second\<rparr>) edges,
             geometry first, geometry second))"
proof -
  have lf: "loc_edge edges (streetID first) = Inr first"
    using d f by (rule loc_edge_distinct)
  have ls: "loc_edge edges (streetID second) = Inr second"
    using d s by (rule loc_edge_distinct)
  show ?thesis
    using ne by (simp add: relink_def Let_def lf ls loc_edge_set_at set_at_set_at)
qed

lemma streetID_linked [simp]: "streetID (linked first second) = streetID first"
  by (simp add: linked_def)

lemma density_linked [simp]: "density (linked first second) = density first"
  by (simp add: linked_def)

lemma pedestrian_linked [simp]: "pedestrian (linked first second) = pedestrian first"
  by (simp add: linked_def)

lemma loc_edge_put:
  assumes "streetID r = l"
  shows "loc_edge (map (\<lambda>e. if streetID e = l then r else e) edges) k =
           (if k = l then (if l \<in> streetID ` set edges then Inr r else Inl KeyError)
            else loc_edge edges k)"
  using assms by (induction edges) (auto simp: loc_edge_def)

lemma set_at_put:
  assumes "streetID r = l"
  shows "set_at l f (map (\<lambda>e. if streetID e = l then r else e) edges) =
           map (\<lambda>e. if streetID e = l then f r else e) edges"
  using assms by (simp add: set_at_def)

lemma map_streetID_put:
  assumes "streetID r = l"
  shows "map streetID (map (\<lambda>e. if streetID e = l then r else e) edges) = map streetID edges"
  using assms by simp

lemma filter_put:
  assumes "streetID r = l"
  shows "filter (\<lambda>e. streetID e \<notin> set (l # ks)) (map (\<lambda>e. if streetID e = l then r else e) edges) =
           filter (\<lambda>e. streetID e \<notin> set (l # ks)) edges"
  using assms by (induction edges) auto

lemma relink_put:
  assumes d: "distinct (map streetID edges)"
      and f: "first \<in> set edges" and s: "second \<in> set edges"
      and ne: "streetID first \<noteq> streetID second"
  shows "relink first second edges =
     Inr (map (\<lambda>e. if streetID e = streetID first then linked first second else e) edges,
          if u first = u second then rev (geometry first) else
          if u first = v second then geometry second else geometry first,
          if u first = u second then geometry second else
          if u first = v second then geometry first else geometry second)"
proof -
  have only: "set_at (streetID first) g edges =
                map (\<lambda>e. if streetID e = streetID first then g first else e) edges" for g
    using d f by (rule set_at_only) simp
  show ?thesis
    unfolding relink_distinct[OF d f s ne] only linked_def by simp
qed

lemma contract_distinct:
  assumes d: "distinct (map streetID edges)"
      and inc: "filter (\<lambda>e. u e = nid \<or> v e = nid) edges = first # second # rest"
      and col: "upd \<longrightarrow> column \<noteq> None"
  shows "contract upd column nid (nodes, edges) =
     and_then (drop_nodes [nid] nodes) (\<lambda>nodes'. Inr (nodes',
       let row = (if upd then (linked first second)\<lparr>density := max (density first) (density second)\<rparr>
                  else linked first second) in
       if u row = v row then
         filter (\<lambda>e. streetID e \<notin> set [streetID first, streetID second]) edges
       else
         filter (\<lambda>e. streetID e \<notin> set [streetID second])
           (map (\<lambda>e. if streetID e = streetID first
                     then row\<lparr>geometry := joined first second,
                              pedestrian := (if pedestrian second = 1 then 1 else pedestrian first)\<rparr>
                     else e) edges)))"
proof -
  let ?i1 = "streetID first" and ?i2 = "streetID second"
  have fs: "first \<in> set (filter (\<lambda>e. u e = nid \<or> v e = nid) edges)"
           "second \<in> set (filter (\<lambda>e. u e = nid \<or> v e = nid) edges)"
    by (simp_all add: inc)
  then have f: "first \<in> set edges" and s: "second \<in> set edges" by auto
  have "distinct (map streetID (filter (\<lambda>e. u e = nid \<or> v e = nid) edges))"
    using d by (rule distinct_map_filter)
  then have ne: "?i1 \<noteq> ?i2"
    by (simp add: inc)
  have ls: "loc_edge edges ?i2 = Inr second"
    using d s by (rule loc_edge_distinct)
  have inl: "?i1 \<in> streetID ` set edges" "?i2 \<in> streetID ` set edges"
    using f s by auto
  define row where "row = (if upd then (linked first second)\<lparr>density := max (density first) (density second)\<rparr>
                  else linked first second)"
  have row_id [simp]: "streetID row = ?i1" by (simp add: row_def)
  have row_ped [simp]: "pedestrian row = pedestrian first" by (simp add: row_def)
  define edges1 where "edges1 = map (\<lambda>e. if streetID e = ?i1 then linked first second else e) edges"
  define edges2 where "edges2 = map (\<lambda>e. if streetID e = ?i1 then row else e) edges"
  have md: "max_density upd column ?i1 ?i2 edges1 = Inr edges2"
  proof (cases upd)
    case True
    with col obtain c where "column = Some c" by auto
    with True ne inl show ?thesis
      by (simp add: max_density_def edges1_def edges2_def loc_edge_put ls set_at_put row_def)
  next
    case False
    then show ?thesis by (simp add: max_density_def edges1_def edges2_def row_def)
  qed
  have lrow: "loc_edge edges2 ?i1 = Inr row"
    using inl by (simp add: edges2_def loc_edge_put)
  have ids2: "streetID ` set edges2 = streetID ` set edges"
  proof -
    have "map streetID edges2 = map streetID edges"
      unfolding edges2_def by (rule map_streetID_put) simp
    then have "set (map streetID edges2) = set (map streetID edges)" by simp
    then show ?thesis by simp
  qed
  have loopcase: "drop_edges [?i1, ?i2] edges2 =
      Inr (filter (\<lambda>e. streetID e \<notin> set [?i1, ?i2]) edges)"
  proof -
    have "drop_edges [?i1, ?i2] edges2 = Inr (filter (\<lambda>e. streetID e \<notin> set [?i1, ?i2]) edges2)"
      by (rule drop_edges_present) (use inl ids2 in simp)
    also have "filter (\<lambda>e. streetID e \<notin> set [?i1, ?i2]) edges2 =
               filter (\<lambda>e. streetID e \<notin> set [?i1, ?i2]) edges"
      unfolding edges2_def by (rule filter_put) simp
    finally show ?thesis .
  qed
  define new_line where "new_line = joined first second"
  define edges3 where "edges3 = map (\<lambda>e. if streetID e = ?i1 then row\<lparr>geometry := new_line\<rparr> else e) edges"
  have e3: "set_at ?i1 (\<lambda>e. e\<lparr>geometry := new_line\<rparr>) edges2 = edges3"
    by (simp add: edges2_def edges3_def set_at_put)
  have l3: "loc_edge edges3 ?i2 = Inr second"
    using ne by (simp add: edges3_def loc_edge_put ls)
  define edges4 where "edges4 = map (\<lambda>e. if streetID e = ?i1
       then row\<lparr>geometry := new_line, pedestrian := (if pedestrian second = 1 then 1 else pedestrian first)\<rparr>
       else e) edges"
  have e4a: "set_at ?i1 (\<lambda>e. e\<lparr>pedestrian := 1\<rparr>) edges3 = edges4" if "pedestrian second = 1"
    using that by (simp add: edges3_def edges4_def set_at_put)
  have e4b: "edges3 = edges4" if "pedestrian second \<noteq> 1"
  proof -
    have "row\<lparr>geometry := new_line\<rparr> = row\<lparr>geometry := new_line, pedestrian := pedestrian first\<rparr>"
      by simp
    with that show ?thesis
      by (simp add: edges3_def edges4_def)
  qed
  have ids4: "streetID ` set edges4 = streetID ` set edges"
  proof -
    have "map streetID edges4 = map streetID edges"
      unfolding edges4_def by (rule map_streetID_put) simp
    then have "set (map streetID edges4) = set (map streetID edges)" by simp
    then show ?thesis by simp
  qed
  have d5: "drop_edges [?i2] edges4 = Inr (filter (\<lambda>e. streetID e \<notin> set [?i2]) edges4)"
    by (rule drop_edges_present) (use inl ids4 in simp)
  have rl: "relink first second edges = Inr (edges1,
          if u first = u second then rev (geometry first) else
          if u first = v second then geometry second else geometry first,
          if u first = u second then geometry second else
          if u first = v second then geometry first else geometry second)"
    unfolding edges1_def by (rule relink_put[OF d f s ne])
  have nl: "(if u first = u second then rev (geometry first) else
          if u first = v second then geometry second else geometry first) @
         (if u first = u second then geometry second else
          if u first = v second then geometry first else geometry second) = new_line"
    by (simp add: new_line_def joined_def)
  have lhs: "contract upd column nid (nodes, edges) =
     and_then (drop_nodes [nid] nodes) (\<lambda>nodes'. Inr (nodes',
       if u row = v row then filter (\<lambda>e. streetID e \<notin> set [?i1, ?i2]) edges
       else filter (\<lambda>e. streetID e \<notin> set [?i2]) edges4))"
    unfolding contract_def
    by (simp add: inc rl md lrow loopcase Let_def nl e3 l3 e4a e4b d5 del: set_simps)
  show ?thesis
    unfolding lhs unfolding row_def edges4_def new_line_def Let_def by simp
qed



text \<open>
  In the first three cases of \<open>relink\<close> the two coordinate lists meet at the
  contracted node and the merged line runs from the new \<open>u\<close> to the new \<open>v\<close>, when
  each edge runs from its \<open>u\<close> node to its \<open>v\<close> node (\<open>P\<close> gives the coordinates of a
  node).
\<close>

lemma joined_continuous:
  assumes inc: "u first = nid \<or> v first = nid" "u second = nid \<or> v second = nid"
      and noloop: "u (linked first second) \<noteq> v (linked first second)"
      and cases123: "u first = u second \<or> u first = v second \<or> v first = u second"
      and ne: "geometry first \<noteq> []" "geometry second \<noteq> []"
      and ends: "hd (geometry first) = P (u first)" "last (geometry first) = P (v first)"
                "hd (geometry second) = P (u second)" "last (geometry second) = P (v second)"
  shows "\<exists>A B. joined first second = A @ B \<and> A \<noteq> [] \<and> B \<noteq> [] \<and>
           last A = P nid \<and> hd B = P nid \<and>
           hd (joined first second) = P (u (linked first second)) \<and>
           last (joined first second) = P (v (linked first second))"
proof -
  consider (c1) "u first = u second"
    | (c2) "u first \<noteq> u second" "u first = v second"
    | (c3) "u first \<noteq> u second" "u first \<noteq> v second" "v first = u second"
    using cases123 by blast
  then show ?thesis
  proof cases
    case c1
    with inc noloop have n: "u first = nid" by (auto simp: linked_def)
    show ?thesis
      apply (rule exI[of _ "rev (geometry first)"], rule exI[of _ "geometry second"])
      using c1 n ne ends by (simp add: joined_def linked_def hd_rev last_rev)
  next
    case c2
    with inc noloop have n: "u first = nid" by (auto simp: linked_def)
    show ?thesis
      apply (rule exI[of _ "geometry second"], rule exI[of _ "geometry first"])
      using c2 n ne ends by (simp add: joined_def linked_def)
  next
    case c3
    with inc noloop have n: "v first = nid" by (auto simp: linked_def)
    show ?thesis
      apply (rule exI[of _ "geometry first"], rule exI[of _ "geometry second"])
      using c3 n ne ends by (simp add: joined_def linked_def)
  qed
qed

section \<open>Every pass refines the edge table\<close>
















lemma descends_updates [simp]:
  "descends e (e\<lparr>geometry := g\<rparr>)" "descends e (e\<lparr>pedestrian := p\<rparr>)"
  "descends e (e\<lparr>density := d\<rparr>)" "descends e (e\<lparr>edge_length := l\<rparr>)"
  "descends e (e\<lparr>code := c\<rparr>)"
  by (simp_all add: descends_def)








lemma highway_linked [simp]: "highway (linked first second) = highway first"
  by (simp add: linked_def)
















section \<open>Evaluating the model\<close>

lemmas eval_defs = mk_node_def mk_edge_def contract_def relink_def max_density_def and_then_def
  loc_edge_def set_at_def drop_edges_def drop_nodes_def simplify_graph_def dd_def dd_keys_def
  is_edges_simplified_def is_nodes_simplified_def assign_codes_def edge_code_def
  clean_pass_def drop_duplicate_geometries_def drop_duplicates_def coords_def same_uv_def
  merge_group_def merge_connector_def
  fix_dead_ends_def example_env_def example_config_def example_center_line_def
  clean_entry_def clean_exit_def set_xy_def duplicate_nodes_def classify_highway_def
  drop_islands_def update_line_geometry_coords_def loc_node_def to_remove_def
  pedestrian_highways_def Let_def

section \<open>Self-loops\<close>












section \<open>The \<open>highway\<close> column\<close>







section \<open>Where the code departs from the claims\<close>

text \<open>
  Claim C1. Two edges \<open>1 \<rightarrow> 2\<close> and \<open>3 \<rightarrow> 2\<close> meet at the degree-2 node 2, each
  running from its \<open>u\<close> node to its \<open>v\<close> node: the fourth case (\<open>first.v == second.v\<close>,
  lines 217-219). The merged edge gets \<open>u = 1\<close>, \<open>v = 3\<close>, but the second coordinate list
  is appended as it is: the merged line \<open>(0,0), (1,0), (2,0), (1,0)\<close> jumps from the shared
  node to node 3 and ends at the shared node, not at \<open>v\<close>.
\<close>

theorem simplify_graph_facing_edges:
  "simplify_graph [mk_node 1 0 0, mk_node 2 1 0, mk_node 3 2 0]
     [mk_edge 0 1 2 [(0, 0), (1, 0)], mk_edge 1 3 2 [(2, 0), (1, 0)]] False None =
   Inr ([mk_node 1 0 0, mk_node 3 2 0], [mk_edge 0 1 3 [(0, 0), (1, 0), (2, 0), (1, 0)]])"
  by (simp add: eval_defs)

text \<open>
  Claim C8. Two nodes with the same geometry: \<open>duplicate_nodes\<close> returns no table, it
  raises \<open>AttributeError\<close> at line 79.
\<close>

theorem duplicate_nodes_raises:
  "snd (duplicate_nodes [mk_node 0 0 0, mk_node 1 0 0] [mk_edge 0 0 1 [(0, 0), (0, 0)]]) =
     Inl AttributeError"
  by (simp add: eval_defs)

text \<open>
  Claim C9. \<open>is_edges_simplified\<close> leaves the \<open>code\<close> column of the table it was given
  written (lines 155-157), and \<open>duplicate_nodes\<close> leaves the node table it was given
  re-indexed by \<open>nodeID\<close> (line 64).
\<close>

theorem arguments_mutated:
  "fst (is_edges_simplified [mk_edge 0 0 1 [(0, 0), (1, 0)]]) =
     [(mk_edge 0 0 1 [(0, 0), (1, 0)])\<lparr>code := Some (0, 1)\<rparr>] \<and>
   fst (duplicate_nodes [(mk_node 0 0 0)\<lparr>nidx := 7\<rparr>] []) = [mk_node 0 0 0]"
  by (simp add: eval_defs)

subsection \<open>A network on which the loop does not stop\<close>

lemma ladder_test:
  "is_edges_simplified (map (\<lambda>e. e\<lparr>code := None\<rparr>) ladder_edges) =
     (map (\<lambda>e. e\<lparr>code := Some (edge_code e)\<rparr>) ladder_edges, False)"
  by (simp add: ladder_edges_def eval_defs)

lemma ladder_test_again: "is_edges_simplified ladder_pass = (ladder_pass, False)"
  by (simp add: ladder_pass_def eval_defs)

lemma ladder_first_pass:
  "clean_pass example_env (example_config\<lparr>same_uv_edges := False\<rparr>)
     (ladder_nodes, map (\<lambda>e. e\<lparr>code := Some (edge_code e)\<rparr>) ladder_edges) =
   Inr (ladder_nodes, ladder_pass)"
  by (simp add: ladder_nodes_def ladder_edges_def ladder_pass_def eval_defs)

lemma ladder_next_pass:
  "clean_pass example_env (example_config\<lparr>same_uv_edges := False\<rparr>)
     (ladder_nodes, ladder_pass) = Inr (ladder_nodes, ladder_pass)"
  by (simp add: ladder_nodes_def ladder_pass_def eval_defs)

lemma ladder_loop:
  "clean_loop example_env (example_config\<lparr>same_uv_edges := False\<rparr>)
     (ladder_nodes, ladder_pass) = None"
proof -
  let ?E = example_env and ?cfg = "example_config\<lparr>same_uv_edges := False\<rparr>"
  let ?s = "(ladder_nodes, ladder_pass)"
  have "False" if h: "clean_loop ?E ?cfg ?s = Some y" for y
  proof -
    have "\<not> (?E = ?E \<and> ?cfg = ?cfg \<and> ?s = ?s)"
      apply (rule clean_loop.raw_induct
               [where P = "\<lambda>E cfg s y. \<not> (E = ?E \<and> cfg = ?cfg \<and> s = ?s)", OF _ h])
      subgoal premises prems for loop E cfg s y
      proof
        assume a: "E = ?E \<and> cfg = ?cfg \<and> s = ?s"
        with prems(2) have "loop ?E ?cfg ?s = Some y"
          by (simp add: ladder_test_again ladder_next_pass)
        with prems(1) show False by blast
      qed
      done
    then show False by simp
  qed
  then show ?thesis by (cases "clean_loop ?E ?cfg ?s") auto
qed

lemma ladder_entry:
  "clean_entry example_env False ladder_nodes ladder_edges =
     Inr (ladder_nodes, map (\<lambda>e. e\<lparr>code := None\<rparr>) ladder_edges)"
  by (simp add: ladder_nodes_def ladder_edges_def eval_defs)

text \<open>
  Claim C6. With \<open>same_uv_edges = False\<close> the two parallel streets of the ladder are
  never merged, no node has degree 2, and a pass changes nothing: the loop condition
  stays true and \<open>clean_network\<close> never returns.
\<close>

theorem clean_network_never_returns:
  "clean_network example_env (example_config\<lparr>same_uv_edges := False\<rparr>) False
     ladder_nodes ladder_edges = None"
proof -
  let ?E = example_env and ?cfg = "example_config\<lparr>same_uv_edges := False\<rparr>"
  have "clean_loop ?E ?cfg (ladder_nodes, map (\<lambda>e. e\<lparr>code := None\<rparr>) ladder_edges) =
          clean_loop ?E ?cfg (ladder_nodes, ladder_pass)"
    by (subst clean_loop.simps) (simp add: ladder_test ladder_first_pass)
  then show ?thesis by (simp add: clean_network_def ladder_entry ladder_loop)
qed


section \<open>What the resolver does with one parallel edge\<close>

lemma put_same:
  assumes "distinct (map streetID edges)" "r \<in> set edges"
  shows "map (\<lambda>e. if streetID e = streetID r then r else e) edges = edges"
proof -
  have "e = r" if "e \<in> set edges" "streetID e = streetID r" for e
    using that assms by (metis distinct_map inj_onD)
  then have "map (\<lambda>e. if streetID e = streetID r then r else e) edges = map (\<lambda>e. e) edges"
    by (intro map_cong) auto
  then show ?thesis by simp
qed

lemma merge_connector_distinct:
  assumes d: "distinct (map streetID edges)"
      and r: "ref \<in> set edges" and c: "connector \<in> set edges"
      and rid: "streetID ref = ix_line" and ne: "streetID connector \<noteq> ix_line"
      and col: "update_densities cfg \<longrightarrow> densities_column cfg \<noteq> None"
  shows "merge_connector E cfg line_geometry ix_line connector edges =
     Inr (filter (\<lambda>e. streetID e \<noteq> streetID connector)
       (map (\<lambda>e. if streetID e = ix_line
                 then ref\<lparr>geometry :=
                            (if line_length E (geometry connector) > line_length E line_geometry * (13 / 10)
                             then geometry ref
                             else center_line E line_geometry (geometry connector)),
                          pedestrian := (if pedestrian connector = 1 then 1 else pedestrian ref),
                          density := (if update_densities cfg then density ref + density connector
                                      else density ref)\<rparr>
                 else e) edges))"
proof -
  let ?ic = "streetID connector"
  define ref1 where "ref1 =
     (if line_length E (geometry connector) > line_length E line_geometry * (13 / 10) then ref
      else ref\<lparr>geometry := center_line E line_geometry (geometry connector)\<rparr>)"
  define ref2 where "ref2 = (if pedestrian connector = 1 then ref1\<lparr>pedestrian := 1\<rparr> else ref1)"
  define ref3 where "ref3 =
     (if update_densities cfg then ref2\<lparr>density := density ref + density connector\<rparr> else ref2)"
  define edges1 where "edges1 = map (\<lambda>e. if streetID e = ix_line then ref1 else e) edges"
  define edges2 where "edges2 = map (\<lambda>e. if streetID e = ix_line then ref2 else e) edges"
  define edges3 where "edges3 = map (\<lambda>e. if streetID e = ix_line then ref3 else e) edges"
  have id1: "streetID ref1 = ix_line" by (simp add: ref1_def rid)
  have id2: "streetID ref2 = ix_line" by (simp add: ref2_def id1)
  have id3: "streetID ref3 = ix_line" by (simp add: ref3_def id2)
  have dens2: "density ref2 = density ref" by (simp add: ref2_def ref1_def)
  have inl: "ix_line \<in> streetID ` set edges" "?ic \<in> streetID ` set edges"
    using r c rid by auto
  have lc: "loc_edge edges ?ic = Inr connector"
    using d c by (rule loc_edge_distinct)
  have same: "map (\<lambda>e. if streetID e = ix_line then ref else e) edges = edges"
    using put_same[OF d r] rid by simp
  have only: "set_at ix_line g edges = map (\<lambda>e. if streetID e = ix_line then g ref else e) edges" for g
    using d r rid by (rule set_at_only)
  have e1: "(if line_length E (geometry connector) > line_length E line_geometry * (13 / 10)
             then edges
             else set_at ix_line (\<lambda>e. e\<lparr>geometry := center_line E line_geometry (geometry connector)\<rparr>)
                    edges) = edges1"
    unfolding edges1_def ref1_def only by (simp add: same)
  have l1: "loc_edge edges1 ?ic = Inr connector"
    unfolding edges1_def using ne by (simp add: loc_edge_put[OF id1] lc)
  have e2: "(if pedestrian connector = 1 then set_at ix_line (\<lambda>e. e\<lparr>pedestrian := 1\<rparr>) edges1
             else edges1) = edges2"
    unfolding edges1_def edges2_def ref2_def by (simp add: set_at_put[OF id1])
  have l2r: "loc_edge edges2 ix_line = Inr ref2"
    unfolding edges2_def using inl by (simp add: loc_edge_put[OF id2])
  have l2c: "loc_edge edges2 ?ic = Inr connector"
    unfolding edges2_def using ne by (simp add: loc_edge_put[OF id2] lc)
  have e3: "(if update_densities cfg then
               (case densities_column cfg of
                  None \<Rightarrow> Inl columnError
                | Some _ \<Rightarrow>
                    and_then (loc_edge edges2 ix_line) (\<lambda>r.
                    and_then (loc_edge edges2 ?ic) (\<lambda>c'.
                      Inr (set_at ix_line (\<lambda>e. e\<lparr>density := density r + density c'\<rparr>) edges2))))
             else Inr edges2) = Inr edges3"
  proof (cases "update_densities cfg")
    case True
    with col obtain name where "densities_column cfg = Some name" by auto
    with True show ?thesis
      unfolding l2r l2c by (simp add: edges2_def edges3_def ref3_def set_at_put[OF id2] dens2)
  next
    case False
    then show ?thesis by (simp add: edges2_def edges3_def ref3_def)
  qed
  have ids3: "streetID ` set edges3 = streetID ` set edges"
  proof -
    have "map streetID edges3 = map streetID edges"
      unfolding edges3_def by (rule map_streetID_put) (rule id3)
    then have "set (map streetID edges3) = set (map streetID edges)" by simp
    then show ?thesis by simp
  qed
  have d3: "drop_edges [?ic] edges3 = Inr (filter (\<lambda>e. streetID e \<notin> set [?ic]) edges3)"
    by (rule drop_edges_present) (use inl ids3 in simp)
  have step: "merge_connector E cfg line_geometry ix_line connector edges =
      and_then (loc_edge edges1 ?ic) (\<lambda>c.
          let edges2 = (if pedestrian c = 1
                        then set_at ix_line (\<lambda>e. e\<lparr>pedestrian := 1\<rparr>) edges1
                        else edges1) in
          and_then
            (if update_densities cfg then
               (case densities_column cfg of
                  None \<Rightarrow> Inl columnError
                | Some _ \<Rightarrow>
                    and_then (loc_edge edges2 ix_line) (\<lambda>r.
                    and_then (loc_edge edges2 ?ic) (\<lambda>c'.
                      Inr (set_at ix_line (\<lambda>e. e\<lparr>density := density r + density c'\<rparr>) edges2))))
             else Inr edges2)
            (\<lambda>edges3. drop_edges [?ic] edges3))"
    unfolding merge_connector_def Let_def e1[symmetric] using ne by simp
  have m: "merge_connector E cfg line_geometry ix_line connector edges =
          Inr (filter (\<lambda>e. streetID e \<notin> set [?ic]) edges3)"
    unfolding step l1 and_then_Inr Let_def e2 e3 d3 by (rule refl)
  have r3: "ref3 = ref\<lparr>geometry :=
                            (if line_length E (geometry connector) > line_length E line_geometry * (13 / 10)
                             then geometry ref
                             else center_line E line_geometry (geometry connector)),
                          pedestrian := (if pedestrian connector = 1 then 1 else pedestrian ref),
                          density := (if update_densities cfg then density ref + density connector
                                      else density ref)\<rparr>"
    by (simp add: ref3_def ref2_def ref1_def)
  show ?thesis unfolding m edges3_def r3 by simp
qed






section \<open>Densities\<close>

text \<open>
  Claim C3. With \<open>update_densities\<close> on and a density column named: when
  \<open>simplify_graph\<close> contracts a node whose two edges \<open>first\<close> and \<open>second\<close> do not close
  a loop, the call returns, the second edge is gone and the density of the surviving
  edge (the row labelled like \<open>first\<close>) is the maximum of the two densities; when the
  resolver of \<open>clean_network\<close> merges a \<open>connector\<close> into the reference row of its
  group, the connector is gone and the density of the reference row is the sum of the
  two densities. Street labels are unique.
\<close>

theorem density_combination:
  "(distinct (map streetID edges) \<and>
    filter (\<lambda>e. u e = nid \<or> v e = nid) edges = first # second # rest \<and>
    nid \<in> set (map nidx nodes) \<and> u (linked first second) \<noteq> v (linked first second) \<longrightarrow>
      (\<exists>nodes' edges' survivor.
         contract True (Some column) nid (nodes, edges) = Inr (nodes', edges') \<and>
         loc_edge edges' (streetID first) = Inr survivor \<and>
         loc_edge edges' (streetID second) = Inl KeyError \<and>
         density survivor = max (density first) (density second))) \<and>
   (distinct (map streetID table) \<and> reference \<in> set table \<and> connector \<in> set table \<and>
    streetID reference = ix_line \<and> streetID connector \<noteq> ix_line \<and>
    update_densities cfg \<and> densities_column cfg = Some name \<longrightarrow>
      (\<exists>table' survivor.
         merge_connector E cfg line_geometry ix_line connector table = Inr table' \<and>
         loc_edge table' ix_line = Inr survivor \<and>
         loc_edge table' (streetID connector) = Inl KeyError \<and>
         density survivor = density reference + density connector))"
proof (intro conjI impI)
  assume a: "distinct (map streetID edges) \<and>
    filter (\<lambda>e. u e = nid \<or> v e = nid) edges = first # second # rest \<and>
    nid \<in> set (map nidx nodes) \<and> u (linked first second) \<noteq> v (linked first second)"
  then have d: "distinct (map streetID edges)"
    and inc: "filter (\<lambda>e. u e = nid \<or> v e = nid) edges = first # second # rest"
    and n: "nid \<in> set (map nidx nodes)"
    and l: "u (linked first second) \<noteq> v (linked first second)"
    by simp_all
  have fs: "first \<in> set (filter (\<lambda>e. u e = nid \<or> v e = nid) edges)"
    by (simp add: inc)
  then have f: "first \<in> set edges" by auto
  have "distinct (map streetID (filter (\<lambda>e. u e = nid \<or> v e = nid) edges))"
    using d by (rule distinct_map_filter)
  then have ne: "streetID first \<noteq> streetID second" by (simp add: inc)
  define merged where "merged = (linked first second)
      \<lparr>density := max (density first) (density second), geometry := joined first second,
       pedestrian := (if pedestrian second = 1 then 1 else pedestrian first)\<rparr>"
  define edges' where "edges' = filter (\<lambda>e. streetID e \<notin> set [streetID second])
           (map (\<lambda>e. if streetID e = streetID first then merged else e) edges)"
  have dn: "drop_nodes [nid] nodes = Inr (filter (\<lambda>n. nidx n \<noteq> nid) nodes)"
    using n by (simp add: drop_nodes_def)
  have col: "True \<longrightarrow> Some column \<noteq> None" by simp
  have run: "contract True (Some column) nid (nodes, edges) =
               Inr (filter (\<lambda>n. nidx n \<noteq> nid) nodes, edges')"
    unfolding contract_distinct[OF d inc col] dn edges'_def merged_def using l
    by (simp add: Let_def)
  have idm: "streetID merged = streetID first" by (simp add: merged_def)
  have "filter (\<lambda>e. streetID e \<notin> set [streetID second]) [merged] = [merged]"
    using ne by (simp add: idm)
  have mem: "merged \<in> set edges'"
    unfolding edges'_def using f ne idm by (auto simp: image_iff)
  have de: "distinct (map streetID edges')"
  proof -
    have eq: "map streetID (map (\<lambda>e. if streetID e = streetID first then merged else e) edges)
            = map streetID edges"
      by (rule map_streetID_put) (rule idm)
    have "distinct (map streetID (map (\<lambda>e. if streetID e = streetID first then merged else e) edges))"
      unfolding eq by (rule d)
    then show ?thesis unfolding edges'_def by (rule distinct_map_filter)
  qed
  have surv: "loc_edge edges' (streetID first) = Inr merged"
    using loc_edge_distinct[OF de mem] by (simp add: idm)
  have gone: "loc_edge edges' (streetID second) = Inl KeyError"
    by (rule loc_edge_absent) (auto simp: edges'_def)
  have "density merged = max (density first) (density second)"
    by (simp add: merged_def)
  with run surv gone show "\<exists>nodes' edges' survivor.
         contract True (Some column) nid (nodes, edges) = Inr (nodes', edges') \<and>
         loc_edge edges' (streetID first) = Inr survivor \<and>
         loc_edge edges' (streetID second) = Inl KeyError \<and>
         density survivor = max (density first) (density second)"
    by blast
next
  assume a: "distinct (map streetID table) \<and> reference \<in> set table \<and> connector \<in> set table \<and>
    streetID reference = ix_line \<and> streetID connector \<noteq> ix_line \<and>
    update_densities cfg \<and> densities_column cfg = Some name"
  then have d: "distinct (map streetID table)" and r: "reference \<in> set table"
    and c: "connector \<in> set table" and rid: "streetID reference = ix_line"
    and ne: "streetID connector \<noteq> ix_line" and upd: "update_densities cfg"
    and col: "update_densities cfg \<longrightarrow> densities_column cfg \<noteq> None"
    by simp_all
  define merged where "merged = reference\<lparr>geometry :=
                            (if line_length E (geometry connector) > line_length E line_geometry * (13 / 10)
                             then geometry reference
                             else center_line E line_geometry (geometry connector)),
                          pedestrian := (if pedestrian connector = 1 then 1 else pedestrian reference),
                          density := (if update_densities cfg then density reference + density connector
                                      else density reference)\<rparr>"
  define table' where "table' = filter (\<lambda>e. streetID e \<noteq> streetID connector)
       (map (\<lambda>e. if streetID e = ix_line then merged else e) table)"
  have run: "merge_connector E cfg line_geometry ix_line connector table = Inr table'"
    unfolding table'_def merged_def by (rule merge_connector_distinct[OF d r c rid ne col])
  have idm: "streetID merged = ix_line" by (simp add: merged_def rid)
  have mem: "merged \<in> set table'"
    unfolding table'_def using r rid ne idm by (auto simp: image_iff)
  have de: "distinct (map streetID table')"
  proof -
    have eq: "map streetID (map (\<lambda>e. if streetID e = ix_line then merged else e) table)
            = map streetID table"
      by (rule map_streetID_put) (rule idm)
    have "distinct (map streetID (map (\<lambda>e. if streetID e = ix_line then merged else e) table))"
      unfolding eq by (rule d)
    then show ?thesis unfolding table'_def by (rule distinct_map_filter)
  qed
  have surv: "loc_edge table' ix_line = Inr merged"
    using loc_edge_distinct[OF de mem] by (simp add: idm)
  have gone: "loc_edge table' (streetID connector) = Inl KeyError"
    by (rule loc_edge_absent) (auto simp: table'_def)
  have "density merged = density reference + density connector"
    using upd by (simp add: merged_def)
  with run surv gone show "\<exists>table' survivor.
         merge_connector E cfg line_geometry ix_line connector table = Inr table' \<and>
         loc_edge table' ix_line = Inr survivor \<and>
         loc_edge table' (streetID connector) = Inl KeyError \<and>
         density survivor = density reference + density connector"
    by blast
qed

theorem density_combination_witness:
  "contract True (Some ''count'') 1
     ([mk_node 0 0 0, mk_node 1 1 0, mk_node 2 2 0],
      [(mk_edge 0 0 1 [(0, 0), (1, 0)])\<lparr>density := 3\<rparr>,
       (mk_edge 1 1 2 [(1, 0), (2, 0)])\<lparr>density := 7\<rparr>]) =
   Inr ([mk_node 0 0 0, mk_node 2 2 0],
        [(mk_edge 0 0 2 [(0, 0), (1, 0), (1, 0), (2, 0)])\<lparr>density := 7\<rparr>]) \<and>
   merge_connector example_env counting (geometry lane) 0 lane_near [lane, lane_near] =
   Inr [lane\<lparr>geometry := [(0, 0), (0, 3 / 2), (10, 3 / 2), (10, 0)],
             pedestrian := 1, density := 10\<rparr>]"
proof -
  let ?a = "(mk_edge 0 0 1 [(0, 0), (1, 0)])\<lparr>density := 3\<rparr>"
  let ?b = "(mk_edge 1 1 2 [(1, 0), (2, 0)])\<lparr>density := 7\<rparr>"
  let ?nodes = "[mk_node 0 0 0, mk_node 1 1 0, mk_node 2 2 0]"
  note t = density_combination[where edges = "[?a, ?b]" and nid = 1 and first = ?a
      and second = ?b and rest = "[]" and nodes = ?nodes and column = "''count''"
      and table = "[lane, lane_near]" and name = "''count''"
      and reference = lane and connector = lane_near and ix_line = 0 and cfg = counting
      and E = example_env and line_geometry = "geometry lane"]
  have run1: "contract True (Some ''count'') 1 (?nodes, [?a, ?b]) =
     Inr ([mk_node 0 0 0, mk_node 2 2 0],
          [(mk_edge 0 0 2 [(0, 0), (1, 0), (1, 0), (2, 0)])\<lparr>density := 7\<rparr>])"
    by (simp add: eval_defs)
  have run2: "merge_connector example_env counting (geometry lane) 0 lane_near [lane, lane_near] =
     Inr [lane\<lparr>geometry := [(0, 0), (0, 3 / 2), (10, 3 / 2), (10, 0)],
               pedestrian := 1, density := 10\<rparr>]"
    by (simp add: lane_def lane_near_def counting_def eval_defs)
  have pre1: "distinct (map streetID [?a, ?b]) \<and>
    filter (\<lambda>e. u e = 1 \<or> v e = 1) [?a, ?b] = ?a # ?b # [] \<and>
    1 \<in> set (map nidx ?nodes) \<and> u (linked ?a ?b) \<noteq> v (linked ?a ?b)"
    by (simp add: mk_edge_def mk_node_def linked_def)
  have pre2: "distinct (map streetID [lane, lane_near]) \<and> lane \<in> set [lane, lane_near] \<and>
    lane_near \<in> set [lane, lane_near] \<and>
    streetID lane = 0 \<and> streetID lane_near \<noteq> 0 \<and>
    update_densities counting \<and> densities_column counting = Some ''count''"
    by (simp add: lane_def lane_near_def counting_def mk_edge_def)
  from t pre1 obtain nodes' edges' survivor where
    "contract True (Some ''count'') 1 (?nodes, [?a, ?b]) = Inr (nodes', edges')"
    "loc_edge edges' (streetID ?a) = Inr survivor"
    "density survivor = max (density ?a) (density ?b)"
    by blast
  with run1 have "density ((mk_edge 0 0 2 [(0, 0), (1, 0), (1, 0), (2, 0)])\<lparr>density := 7\<rparr>) = 7"
    by (auto simp: mk_edge_def loc_edge_def)
  from t pre2 obtain edges'' survivor' where
    "merge_connector example_env counting (geometry lane) 0 lane_near [lane, lane_near] = Inr edges''"
    "loc_edge edges'' 0 = Inr survivor'"
    "density survivor' = density lane + density lane_near"
    by blast
  with run2 have "density (lane\<lparr>geometry := [(0, 0), (0, 3 / 2), (10, 3 / 2), (10, 0)],
               pedestrian := 1, density := 10\<rparr>) = 10"
    by simp
  with run1 run2 show ?thesis by simp
qed

section \<open>Parallel edges\<close>




section \<open>A density column that was not named\<close>







end
